theory Spec2Isabelle
  imports Main
begin

section \<open>Project users: \<open>dry\<close> (project/controller.go)\<close>

text \<open>
  \<open>apps_v1alpha.ProjectUsers\<close> is declared in another package; \<open>dry\<close> reads its two
  string fields \<open>Site\<close> and \<open>Username\<close> only. The record scheme leaves room for any
  further field the declaration may have.
\<close>

record ProjectUsers =
  Site :: string
  Username :: string

text \<open>\<open>fmt.Sprintf("%s?/delta/? %s", site, username)\<close>.\<close>

definition Sprintf_delta :: "string \<Rightarrow> string \<Rightarrow> string" where
  "Sprintf_delta site username = site @ ''?/delta/? '' @ username"

text \<open>
  The inner \<open>for _, newValue := range newProject\<close>: the flag \<open>exists\<close> is set on a match
  and never cleared; the loop does not break.
\<close>

fun dry_inner :: "'a ProjectUsers_scheme \<Rightarrow> 'b ProjectUsers_scheme list \<Rightarrow> bool \<Rightarrow> bool" where
  "dry_inner oldValue [] exists = exists"
| "dry_inner oldValue (newValue # rest) exists =
     dry_inner oldValue rest
       (if Site oldValue = Site newValue \<and> Username oldValue = Username newValue
        then True else exists)"

text \<open>The outer \<open>for _, oldValue := range oldProject\<close>, with \<open>uniqueProject\<close> as accumulator.\<close>

fun dry_outer ::
  "'a ProjectUsers_scheme list \<Rightarrow> 'b ProjectUsers_scheme list \<Rightarrow> string list \<Rightarrow> string list" where
  "dry_outer [] newProject uniqueProject = uniqueProject"
| "dry_outer (oldValue # rest) newProject uniqueProject =
     (let exists = dry_inner oldValue newProject False
      in dry_outer rest newProject
           (if \<not> exists
            then uniqueProject @ [Sprintf_delta (Site oldValue) (Username oldValue)]
            else uniqueProject))"

definition dry ::
  "'a ProjectUsers_scheme list \<Rightarrow> 'b ProjectUsers_scheme list \<Rightarrow> string list" where
  "dry oldProject newProject = dry_outer oldProject newProject []"

text \<open>The claim's words: the pair of an old element appears in some element of the new list.\<close>

definition pair_in :: "'a ProjectUsers_scheme \<Rightarrow> 'b ProjectUsers_scheme list \<Rightarrow> bool" where
  "pair_in oldValue newProject =
     ((Site oldValue, Username oldValue) \<in> (\<lambda>n. (Site n, Username n)) ` set newProject)"


section \<open>Node geolocation: \<open>SetNodeGeolocation\<close> (nodelabeler handler)\<close>

text \<open>
  \<open>node.GetNodeIPAddresses\<close> and \<open>node.GetGeolocationByIP\<close> belong to package \<open>node\<close>,
  whose source is not available; both are parameters. \<open>GetGeolocationByIP name ip\<close> acts on
  the cluster (type \<open>'s\<close>) and returns whether the lookup succeeded; its error result is
  discarded by the caller. The model returns, next to the final cluster state, the
  lookups it made in order, one constructor per call site.
\<close>

datatype geo_call =
    ExternalLookup string string
  | InternalLookup string string

definition SetNodeGeolocation ::
  "('n \<Rightarrow> string \<times> string) \<Rightarrow> ('n \<Rightarrow> string) \<Rightarrow> (string \<Rightarrow> string \<Rightarrow> 's \<Rightarrow> bool \<times> 's) \<Rightarrow>
   'n \<Rightarrow> 's \<Rightarrow> 's \<times> geo_call list" where
  "SetNodeGeolocation GetNodeIPAddresses Name GetGeolocationByIP obj s =
     (let (internalIP, externalIP) = GetNodeIPAddresses obj;
          result = False;
          (result, s1, calls1) =
            (if externalIP \<noteq> ''''
             then (let (r, s') = GetGeolocationByIP (Name obj) externalIP s
                   in (r, s', [ExternalLookup (Name obj) externalIP]))
             else (result, s, []))
      in if internalIP \<noteq> '''' \<and> result = False
         then (let (r, s') = GetGeolocationByIP (Name obj) internalIP s1
               in (s', calls1 @ [InternalLookup (Name obj) internalIP]))
         else (s1, calls1))"

definition is_internal :: "geo_call \<Rightarrow> bool" where
  "is_internal c = (case c of InternalLookup n ip \<Rightarrow> True | ExternalLookup n ip \<Rightarrow> False)"



section \<open>Selector clauses (config/crd/selectivedeployment.yaml)\<close>

text \<open>
  One item of \<open>spec.selector\<close> as the schema describes it: \<open>value\<close> a string, \<open>operator\<close>
  one of \<open>In\<close> and \<open>NotIn\<close>, \<open>count\<close> an integer with \<open>minimum: 0\<close>. No property of an item
  is listed as required, so each may be absent.
\<close>

record selector =
  selector_value :: "string option"
  selector_operator :: "string option"
  selector_count :: "int option"

definition valid_operator :: "string \<Rightarrow> bool" where
  "valid_operator op = (op = ''In'' \<or> op = ''NotIn'')"

definition valid_count :: "int \<Rightarrow> bool" where
  "valid_count c = (0 \<le> c)"

definition valid_selector :: "selector \<Rightarrow> bool" where
  "valid_selector sel =
     ((case selector_operator sel of None \<Rightarrow> True | Some op \<Rightarrow> valid_operator op) \<and>
      (case selector_count sel of None \<Rightarrow> True | Some c \<Rightarrow> valid_count c))"

text \<open>
  Modelled from the spec: the node selection of the selective deployment handler, whose
  source is not available. Section 4.3 of the specification: a clause is evaluated
  against every known node, giving the raw match set; with operator \<open>In\<close> the candidates
  are the raw match set, with \<open>NotIn\<close> its complement; either is capped at \<open>count\<close>
  entries if \<open>count > 0\<close>, else unlimited. The nodes come in the fixed tie-break order.
\<close>

definition cap :: "int \<Rightarrow> 'n list \<Rightarrow> 'n list" where
  "cap c xs = (if c > 0 then take (nat c) xs else xs)"

definition clause_candidates :: "('n \<Rightarrow> bool) \<Rightarrow> string \<Rightarrow> int \<Rightarrow> 'n list \<Rightarrow> 'n list" where
  "clause_candidates matches op c nodes =
     cap c (if op = ''In'' then filter matches nodes
            else filter (\<lambda>n. \<not> matches n) nodes)"


section \<open>The reconciliation engine (project/controller.go, authority controller)\<close>

subsection \<open>Events and queue items\<close>

text \<open>
  \<open>type fields struct { users, enabled bool }\<close> and \<open>type informerevent struct\<close>, whose
  field \<open>function\<close> is called \<open>func\<close> here. The authority controller's \<open>informerevent\<close> has
  no field \<open>updated\<close>: that is the instance \<open>'u = unit\<close>.
\<close>

record fields =
  users :: bool
  enabled :: bool

record 'u informerevent =
  key :: string
  func :: string
  updated :: 'u

definition create :: string where "create = ''create''"
definition update :: string where "update = ''update''"
definition delete :: string where "delete = ''delete''"

text \<open>
  The queue holds values of type \<open>interface{}\<close>. The controller puts two kinds of value
  into it: \<open>queue.Add(event)\<close> an \<open>informerevent\<close>, and
  \<open>queue.AddRateLimited(event.(informerevent).key)\<close> a bare string.
\<close>

datatype 'u item =
    Event "'u informerevent"
  | Key string

text \<open>The methods of \<open>HandlerInterface\<close> that \<open>processNextItem\<close> calls; \<open>None\<close> is \<open>nil\<close>.\<close>

datatype ('o, 'u) call =
    ObjectCreated "'o option"
  | ObjectUpdated "'o option" 'u
  | ObjectDeleted "'o option"

text \<open>What the controller does to the outside, in the order it does it.\<close>

datatype ('o, 'u) effect =
    HandlerInit
  | InformerRun
  | CacheSynced
  | WorkerStarted
  | Invoke "('o, 'u) call"
  | HandleError string
  | QueueShutDown
  | Crash

subsection \<open>State\<close>

text \<open>
  The rate limiting work queue of client-go (\<open>queue\<close>, \<open>dirty\<close>, \<open>processing\<close>, the items
  waiting for their delay, \<open>shuttingDown\<close>, and the failure count per item of the rate
  limiter), the variable \<open>event\<close> that the three closures of \<open>Start\<close> share, the effects
  so far, and whether the process has died of a panic.
\<close>

record ('o, 'u) state =
  queue :: "'u item list"
  dirty :: "'u item set"
  processing :: "'u item set"
  waiting :: "'u item list"
  shuttingDown :: bool
  failures :: "'u item \<Rightarrow> nat"
  event :: "'u informerevent"
  trace :: "('o, 'u) effect list"
  crashed :: bool

text \<open>
  After \<open>workqueue.NewRateLimitingQueue(workqueue.DefaultControllerRateLimiter())\<close> and
  \<open>var event informerevent\<close>; \<open>zero\<close> is the zero value of the field \<open>updated\<close>.
\<close>

definition newController :: "'u \<Rightarrow> ('o, 'u) state" where
  "newController zero =
     \<lparr>queue = [], dirty = {}, processing = {}, waiting = [], shuttingDown = False,
      failures = (\<lambda>i. 0), event = \<lparr>key = '''', func = '''', updated = zero\<rparr>,
      trace = [], crashed = False\<rparr>"

definition emit :: "('o, 'u) effect \<Rightarrow> ('o, 'u) state \<Rightarrow> ('o, 'u) state" where
  "emit x s = s\<lparr>trace := trace s @ [x]\<rparr>"

subsection \<open>The work queue (client-go \<open>workqueue\<close>)\<close>

text \<open>
  The queue is a library of its own, not part of the repository; its operations are
  written after its implementation. \<open>Add\<close> drops an item that is already dirty and
  defers one that is being processed; \<open>Get\<close> waits on an empty queue unless it is
  shutting down; \<open>Done\<close> re-queues an item that became dirty while it was processed.
\<close>

definition Add :: "'u item \<Rightarrow> ('o, 'u) state \<Rightarrow> ('o, 'u) state" where
  "Add i s =
     (if shuttingDown s then s
      else if i \<in> dirty s then s
      else if i \<in> processing s then s\<lparr>dirty := insert i (dirty s)\<rparr>
      else s\<lparr>dirty := insert i (dirty s), queue := queue s @ [i]\<rparr>)"

datatype ('o, 'u) got =
    GetWaits
  | GetShutdown
  | GetItem "'u item" "('o, 'u) state"

definition Get :: "('o, 'u) state \<Rightarrow> ('o, 'u) got" where
  "Get s =
     (case queue s of
        [] \<Rightarrow> if shuttingDown s then GetShutdown else GetWaits
      | i # rest \<Rightarrow>
          GetItem i (s\<lparr>queue := rest, processing := insert i (processing s),
                       dirty := dirty s - {i}\<rparr>))"

definition Done :: "'u item \<Rightarrow> ('o, 'u) state \<Rightarrow> ('o, 'u) state" where
  "Done i s =
     (if i \<in> dirty s
      then s\<lparr>processing := processing s - {i}, queue := queue s @ [i]\<rparr>
      else s\<lparr>processing := processing s - {i}\<rparr>)"

text \<open>
  \<open>AddRateLimited item\<close> is \<open>AddAfter(item, rateLimiter.When(item))\<close>: \<open>When\<close> counts one
  more failure of the item, and its delay is positive (at least the base delay of 5ms),
  so the item waits before it is added. \<open>due\<close> is the moment the delay of a waiting item
  has passed.
\<close>

definition AddRateLimited :: "'u item \<Rightarrow> ('o, 'u) state \<Rightarrow> ('o, 'u) state" where
  "AddRateLimited i s =
     (let s1 = s\<lparr>failures := (failures s)(i := failures s i + 1)\<rparr>
      in if shuttingDown s1 then s1 else s1\<lparr>waiting := waiting s1 @ [i]\<rparr>)"

definition due :: "'u item \<Rightarrow> ('o, 'u) state \<Rightarrow> ('o, 'u) state" where
  "due i s = (if i \<in> set (waiting s) then Add i (s\<lparr>waiting := remove1 i (waiting s)\<rparr>) else s)"

definition NumRequeues :: "'u item \<Rightarrow> ('o, 'u) state \<Rightarrow> nat" where
  "NumRequeues i s = failures s i"

definition Forget :: "'u item \<Rightarrow> ('o, 'u) state \<Rightarrow> ('o, 'u) state" where
  "Forget i s = s\<lparr>failures := (failures s)(i := 0)\<rparr>"

definition ShutDown :: "('o, 'u) state \<Rightarrow> ('o, 'u) state" where
  "ShutDown s = emit QueueShutDown (s\<lparr>shuttingDown := True\<rparr>)"

subsection \<open>The event handlers that \<open>Start\<close> registers\<close>

text \<open>
  \<open>cache.MetaNamespaceKeyFunc\<close> and \<open>cache.DeletionHandlingMetaNamespaceKeyFunc\<close> are
  parameters: a key function returns a key and an error (\<open>None\<close> is \<open>nil\<close>).
\<close>

definition AddFunc ::
  "('o \<Rightarrow> string \<times> string option) \<Rightarrow> 'o \<Rightarrow> ('o, 'u) state \<Rightarrow> ('o, 'u) state" where
  "AddFunc keyFunc obj s =
     (let (k, err) = keyFunc obj;
          s1 = s\<lparr>event := (event s)\<lparr>key := k, func := create\<rparr>\<rparr>
      in if err = None then Add (Event (event s1)) s1 else s1)"

text \<open>
  \<open>UpdateFunc\<close>; \<open>changed\<close> stands for the lines that recompute \<open>event.updated\<close> from the
  old and the new object, which the two controllers do not share.
\<close>

definition UpdateFunc ::
  "('o \<Rightarrow> 'o \<Rightarrow> 'u \<Rightarrow> 'u) \<Rightarrow> ('o \<Rightarrow> string \<times> string option) \<Rightarrow> 'o \<Rightarrow> 'o \<Rightarrow>
   ('o, 'u) state \<Rightarrow> ('o, 'u) state" where
  "UpdateFunc changed keyFunc oldObj newObj s =
     (let (k, err) = keyFunc newObj;
          s1 = s\<lparr>event := (event s)\<lparr>key := k, func := update\<rparr>\<rparr>;
          s2 = s1\<lparr>event := (event s1)\<lparr>updated := changed oldObj newObj (updated (event s1))\<rparr>\<rparr>
      in if err = None then Add (Event (event s2)) s2 else s2)"

definition DeleteFunc ::
  "('o \<Rightarrow> string \<times> string option) \<Rightarrow> 'o \<Rightarrow> ('o, 'u) state \<Rightarrow> ('o, 'u) state" where
  "DeleteFunc delKeyFunc obj s =
     (let (k, err) = delKeyFunc obj;
          s1 = s\<lparr>event := (event s)\<lparr>key := k, func := delete\<rparr>\<rparr>
      in if err = None then Add (Event (event s1)) s1 else s1)"

text \<open>
  The project controller's lines for \<open>event.updated\<close>. A project is read at
  \<open>Status.Enabled\<close> and \<open>Spec.Users\<close> only; the type is declared in another package.
  \<open>Spec.Users\<close> is a slice, \<open>None\<close> the nil slice: \<open>reflect.DeepEqual\<close> tells a nil slice
  from an empty one, and on slices of plain data it is equality otherwise.
\<close>

record 'm Project =
  Spec_Users :: "'m list option"
  Status_Enabled :: bool

definition DeepEqual :: "'m list option \<Rightarrow> 'm list option \<Rightarrow> bool" where
  "DeepEqual a b = (a = b)"

definition project_changed ::
  "('m, 'z) Project_scheme \<Rightarrow> ('m, 'z) Project_scheme \<Rightarrow> fields \<Rightarrow> fields" where
  "project_changed oldObj newObj u =
     (let u1 = u\<lparr>enabled := False\<rparr>;
          u2 = u1\<lparr>users := False\<rparr>;
          u3 = (if Status_Enabled oldObj \<noteq> Status_Enabled newObj
                then u2\<lparr>enabled := True\<rparr> else u2)
      in if \<not> DeepEqual (Spec_Users oldObj) (Spec_Users newObj)
         then u3\<lparr>users := True\<rparr> else u3)"

text \<open>The authority controller has no such lines.\<close>

definition authority_changed :: "'o \<Rightarrow> 'o \<Rightarrow> 'u \<Rightarrow> 'u" where
  "authority_changed oldObj newObj u = u"

subsection \<open>\<open>processNextItem\<close> and \<open>runWorker\<close>\<close>

text \<open>
  The block \<open>if err != nil { ... }\<close>. The rate limiter is asked about, and given, the key
  string, not the event.
\<close>

definition on_error :: "string option \<Rightarrow> 'u informerevent \<Rightarrow> ('o, 'u) state \<Rightarrow> ('o, 'u) state" where
  "on_error err e s =
     (case err of
        None \<Rightarrow> s
      | Some er \<Rightarrow>
          if NumRequeues (Key (key e)) s < 5
          then AddRateLimited (Key (key e)) s
          else emit (HandleError er) (Forget (Key (key e)) s))"

text \<open>The block \<open>if !exists { ... } else { ... }\<close>: the handler method to call, if any.\<close>

definition dispatch :: "'o option \<Rightarrow> bool \<Rightarrow> 'u informerevent \<Rightarrow> ('o, 'u) call option" where
  "dispatch item exists e =
     (if \<not> exists
      then (if func e = delete then Some (ObjectDeleted item) else None)
      else (if func e = create then Some (ObjectCreated item)
            else if func e = update then Some (ObjectUpdated item (updated e))
            else None))"

text \<open>
  How a call of \<open>processNextItem\<close> ends: it returns a boolean, it waits in \<open>Get\<close> for an
  item, or it panics.
\<close>

datatype outcome =
    Returned bool
  | Blocked
  | Panicked

text \<open>
  \<open>GetByKey\<close> is the indexer at the time of the call: item, exists, error. \<open>panics\<close> tells
  of a handler call whether it panics; what a handler does to the cluster is not
  modelled beyond the call itself. The type assertion \<open>event.(informerevent)\<close> panics on
  an item that is not an \<open>informerevent\<close>. The deferred \<open>Done\<close> runs on return and on
  panic.
\<close>

definition processNextItem ::
  "(string \<Rightarrow> 'o option \<times> bool \<times> string option) \<Rightarrow> (('o, 'u) call \<Rightarrow> bool) \<Rightarrow>
   ('o, 'u) state \<Rightarrow> outcome \<times> ('o, 'u) state" where
  "processNextItem GetByKey panics s =
     (case Get s of
        GetWaits \<Rightarrow> (Blocked, s)
      | GetShutdown \<Rightarrow> (Returned False, s)
      | GetItem ev s1 \<Rightarrow>
          (case ev of
             Key k \<Rightarrow> (Panicked, Done ev s1)
           | Event e \<Rightarrow>
               (let keyRaw = key e;
                    (item, exists, err) = GetByKey keyRaw;
                    s2 = on_error err e s1
                in case dispatch item exists e of
                     None \<Rightarrow> (Returned True, Done ev (Forget (Key (key e)) s2))
                   | Some c \<Rightarrow>
                       if panics c then (Panicked, Done ev (emit (Invoke c) s2))
                       else (Returned True,
                             Done ev (Forget (Key (key e)) (emit (Invoke c) s2))))))"

text \<open>The indexer of the informer: a store of objects by key, whose lookup never fails.\<close>

definition store_GetByKey ::
  "(string \<rightharpoonup> 'o) \<Rightarrow> string \<Rightarrow> 'o option \<times> bool \<times> string option" where
  "store_GetByKey store k = (store k, store k \<noteq> None, None)"




subsection \<open>\<open>run\<close>\<close>

text \<open>What the informer tells the registered handlers.\<close>

datatype 'o notification =
    OnAdd 'o
  | OnUpdate 'o 'o
  | OnDelete 'o

definition notify ::
  "('o \<Rightarrow> 'o \<Rightarrow> 'u \<Rightarrow> 'u) \<Rightarrow> ('o \<Rightarrow> string \<times> string option) \<Rightarrow>
   ('o \<Rightarrow> string \<times> string option) \<Rightarrow> 'o notification \<Rightarrow> ('o, 'u) state \<Rightarrow> ('o, 'u) state" where
  "notify changed keyFunc delKeyFunc n s =
     (case n of
        OnAdd obj \<Rightarrow> AddFunc keyFunc obj s
      | OnUpdate oldObj newObj \<Rightarrow> UpdateFunc changed keyFunc oldObj newObj s
      | OnDelete obj \<Rightarrow> DeleteFunc delKeyFunc obj s)"

text \<open>
  Once the worker is started, three activities take turns until the stop channel is
  closed: the informer delivers a notification, the delay of a waiting item passes, or
  the worker makes one call of \<open>processNextItem\<close> against the indexer as it is then.
  \<open>wait.Until\<close> runs \<open>runWorker\<close> under \<open>HandleCrash\<close>, which logs a panic and raises it
  again ("a Go panic which includes logging and terminating", as \<open>run\<close> says of its own
  deferred \<open>HandleCrash\<close>): a panic of the worker ends the process.
\<close>

datatype ('o, 'u) turn =
    Informer "'o notification"
  | Timer "'u item"
  | Worker "string \<Rightarrow> 'o option \<times> bool \<times> string option"

definition worker_turn ::
  "(string \<Rightarrow> 'o option \<times> bool \<times> string option) \<Rightarrow> (('o, 'u) call \<Rightarrow> bool) \<Rightarrow>
   ('o, 'u) state \<Rightarrow> ('o, 'u) state" where
  "worker_turn GetByKey panics s =
     (let r = processNextItem GetByKey panics s
      in if fst r = Panicked then emit Crash ((snd r)\<lparr>crashed := True\<rparr>) else snd r)"

definition turn ::
  "('o \<Rightarrow> 'o \<Rightarrow> 'u \<Rightarrow> 'u) \<Rightarrow> ('o \<Rightarrow> string \<times> string option) \<Rightarrow>
   ('o \<Rightarrow> string \<times> string option) \<Rightarrow> (('o, 'u) call \<Rightarrow> bool) \<Rightarrow>
   ('o, 'u) turn \<Rightarrow> ('o, 'u) state \<Rightarrow> ('o, 'u) state" where
  "turn changed keyFunc delKeyFunc panics t s =
     (case t of
        Informer n \<Rightarrow> notify changed keyFunc delKeyFunc n s
      | Timer i \<Rightarrow> due i s
      | Worker GetByKey \<Rightarrow> worker_turn GetByKey panics s)"

fun turns ::
  "('o \<Rightarrow> 'o \<Rightarrow> 'u \<Rightarrow> 'u) \<Rightarrow> ('o \<Rightarrow> string \<times> string option) \<Rightarrow>
   ('o \<Rightarrow> string \<times> string option) \<Rightarrow> (('o, 'u) call \<Rightarrow> bool) \<Rightarrow>
   ('o, 'u) turn list \<Rightarrow> ('o, 'u) state \<Rightarrow> ('o, 'u) state" where
  "turns changed keyFunc delKeyFunc panics [] s = s"
| "turns changed keyFunc delKeyFunc panics (t # ts) s =
     (if crashed s then s
      else turns changed keyFunc delKeyFunc panics ts
             (turn changed keyFunc delKeyFunc panics t s))"

text \<open>
  \<open>run\<close>. \<open>synced\<close> is what \<open>cache.WaitForCacheSync\<close> returns; \<open>initial\<close> are the
  notifications that the informer, already running, delivers while \<open>run\<close> waits for it;
  \<open>before_stop\<close> is what happens between the start of the worker and the closing of the
  stop channel, \<open>after_stop\<close> what the worker still does once the deferred \<open>ShutDown\<close> has
  run. \<open>Init\<close> is taken to return.
\<close>

definition run ::
  "('o \<Rightarrow> 'o \<Rightarrow> 'u \<Rightarrow> 'u) \<Rightarrow> ('o \<Rightarrow> string \<times> string option) \<Rightarrow>
   ('o \<Rightarrow> string \<times> string option) \<Rightarrow> (('o, 'u) call \<Rightarrow> bool) \<Rightarrow>
   bool \<Rightarrow> 'o notification list \<Rightarrow> ('o, 'u) turn list \<Rightarrow> ('o, 'u) turn list \<Rightarrow>
   ('o, 'u) state \<Rightarrow> ('o, 'u) state" where
  "run changed keyFunc delKeyFunc panics synced initial before_stop after_stop s =
     (let s1 = emit HandlerInit s;
          s2 = emit InformerRun s1;
          s3 = fold (notify changed keyFunc delKeyFunc) initial s2
      in if \<not> synced
         then ShutDown (emit (HandleError ''Error syncing cache'') s3)
         else (let s4 = emit CacheSynced s3;
                   s5 = emit WorkerStarted s4;
                   s6 = turns changed keyFunc delKeyFunc panics before_stop s5
               in if crashed s6 then s6
                  else turns changed keyFunc delKeyFunc panics after_stop (ShutDown s6)))"

text \<open>The handler calls among the effects.\<close>

definition is_Invoke :: "('o, 'u) effect \<Rightarrow> bool" where
  "is_Invoke x = (case x of Invoke c \<Rightarrow> True | _ \<Rightarrow> False)"

definition call_object :: "('o, 'u) call \<Rightarrow> 'o option" where
  "call_object c =
     (case c of ObjectCreated obj \<Rightarrow> obj | ObjectUpdated obj u \<Rightarrow> obj | ObjectDeleted obj \<Rightarrow> obj)"

text \<open>The effects that a step from \<open>s\<close> to \<open>s'\<close> has added.\<close>

definition added :: "('o, 'u) state \<Rightarrow> ('o, 'u) state \<Rightarrow> ('o, 'u) effect list" where
  "added s s' = drop (length (trace s)) (trace s')"

subsection \<open>The team handler's \<open>ObjectUpdated\<close> (team/handler.go)\<close>

text \<open>
  The writes of \<open>Handler.ObjectUpdated\<close>, given what it has read: whether the owning
  authority is enabled, whether the team is enabled, and the name of the child namespace.
\<close>

datatype team_write =
    DeleteRoleBindings string
  | CreateRoleBindings string
  | UpdateTeamOwnerReferences
  | DeleteSlices string
  | DeleteTeam string

definition team_ObjectUpdated :: "bool \<Rightarrow> bool \<Rightarrow> string \<Rightarrow> fields \<Rightarrow> team_write list" where
  "team_ObjectUpdated authorityEnabled teamEnabled teamChildNamespaceStr fieldUpdated =
     (if authorityEnabled \<and> teamEnabled
      then (if users fieldUpdated \<or> enabled fieldUpdated
            then [DeleteRoleBindings teamChildNamespaceStr,
                  CreateRoleBindings teamChildNamespaceStr,
                  UpdateTeamOwnerReferences]
            else [])
      else if authorityEnabled \<and> \<not> teamEnabled
      then [DeleteSlices teamChildNamespaceStr, DeleteRoleBindings teamChildNamespaceStr]
      else if \<not> authorityEnabled
      then [DeleteTeam teamChildNamespaceStr]
      else [])"

subsection \<open>The retry budget as an invariant\<close>

text \<open>
  Unless the process has died, no item has a failure on record with the rate limiter,
  and \<open>HandleError\<close> has not been called.
\<close>

definition budget_inv :: "('o, 'u) state \<Rightarrow> bool" where
  "budget_inv s =
     ((crashed s \<or> (\<forall>i. failures s i = 0)) \<and> (\<forall>er. HandleError er \<notin> set (trace s)))"


section \<open>Scenarios\<close>

text \<open>
  Concrete inputs for the engine. Objects that are their own key; a store holding two of
  them; a handler that panics on the first; an indexer whose lookup fails.
\<close>

definition name_key :: "string \<Rightarrow> string \<times> string option" where
  "name_key obj = (obj, None)"

definition two_objects :: "string \<rightharpoonup> string" where
  "two_objects = [''a'' \<mapsto> ''a'', ''b'' \<mapsto> ''b'']"

definition never_panics :: "('o, 'u) call \<Rightarrow> bool" where
  "never_panics c = False"

definition panics_on_a :: "(string, unit) call \<Rightarrow> bool" where
  "panics_on_a c = (c = ObjectCreated (Some ''a''))"

definition failing_lookup :: "string \<Rightarrow> string option \<times> bool \<times> string option" where
  "failing_lookup k = (None, False, Some ''lookup failed'')"





definition synced_run :: "(string, unit) state" where
  "synced_run =
     run authority_changed name_key name_key never_panics True [OnAdd ''a'']
       [Worker (store_GetByKey two_objects)] [] (newController ())"

definition unsynced_run :: "(string, unit) state" where
  "unsynced_run =
     run authority_changed name_key name_key never_panics False [OnAdd ''a'']
       [Worker (store_GetByKey two_objects)] [] (newController ())"

text \<open>
  A project with the key \<open>default/p\<close> in three versions; the informer reports the update
  from the first to the second.
\<close>

definition project_key :: "string Project \<Rightarrow> string \<times> string option" where
  "project_key obj = (''default/p'', None)"

definition project_v1 :: "string Project" where
  "project_v1 = \<lparr>Spec_Users = Some [''alice''], Status_Enabled = True\<rparr>"

definition project_v2 :: "string Project" where
  "project_v2 = \<lparr>Spec_Users = Some [''alice'', ''bob''], Status_Enabled = True\<rparr>"

definition project_v3 :: "string Project" where
  "project_v3 = \<lparr>Spec_Users = Some [''alice'', ''bob'', ''carol''], Status_Enabled = True\<rparr>"

definition update_queued :: "(string Project, fields) state" where
  "update_queued =
     UpdateFunc project_changed project_key project_v1 project_v2
       (newController \<lparr>users = False, enabled = False\<rparr>)"



section \<open>Properties of \<open>dry\<close>\<close>

lemma dry_inner_eq: "dry_inner oldValue newProject b = (b \<or> pair_in oldValue newProject)"
  by (induction newProject arbitrary: b) (auto simp: pair_in_def)

lemma dry_outer_eq:
  "dry_outer oldProject newProject acc =
     acc @ map (\<lambda>v. Sprintf_delta (Site v) (Username v))
              (filter (\<lambda>v. \<not> pair_in v newProject) oldProject)"
  by (induction oldProject arbitrary: acc) (simp_all add: dry_inner_eq)

text \<open>
  C9. \<open>dry oldProject newProject\<close> is, in the order of \<open>oldProject\<close>, one entry
  \<open>Site ?/delta/? Username\<close> for each element of \<open>oldProject\<close> whose (Site, Username) pair
  belongs to no element of \<open>newProject\<close>, and nothing else.
\<close>

theorem dry_removed_users:
  "dry oldProject newProject =
     map (\<lambda>v. Site v @ ''?/delta/? '' @ Username v)
         (filter (\<lambda>v. \<not> (\<exists>n \<in> set newProject. Site n = Site v \<and> Username n = Username v))
                 oldProject)"
proof -
  have eq: "(\<lambda>v. \<not> pair_in v newProject) =
      (\<lambda>v. \<not> (\<exists>n \<in> set newProject. Site n = Site v \<and> Username n = Username v))"
    by (rule ext) (force simp: pair_in_def image_iff)
  show ?thesis
    unfolding dry_def dry_outer_eq Sprintf_delta_def eq by simp
qed

theorem dry_removed_users_witness:
  "dry [\<lparr>Site = ''a'', Username = ''u1''\<rparr>, \<lparr>Site = ''a'', Username = ''u2''\<rparr>,
        \<lparr>Site = ''b'', Username = ''u1''\<rparr>]
       [\<lparr>Site = ''a'', Username = ''u2''\<rparr>]
   = [''a?/delta/? u1'', ''b?/delta/? u1'']"
  using dry_removed_users
    [of "[\<lparr>Site = ''a'', Username = ''u1''\<rparr>, \<lparr>Site = ''a'', Username = ''u2''\<rparr>,
          \<lparr>Site = ''b'', Username = ''u1''\<rparr>]"
        "[\<lparr>Site = ''a'', Username = ''u2''\<rparr>]"]
  by simp


section \<open>Properties of \<open>SetNodeGeolocation\<close>\<close>

text \<open>
  C2. \<open>SetNodeGeolocation\<close> prefers the external IP: a non-empty external IP is looked up
  first; the internal IP is looked up if and only if it is non-empty and the external
  lookup did not succeed (the external IP is empty, or its lookup returned false); after a
  successful external lookup the internal IP is not tried.
\<close>

theorem SetNodeGeolocation_prefers_external:
  assumes "GetNodeIPAddresses obj = (internalIP, externalIP)"
  shows "snd (SetNodeGeolocation GetNodeIPAddresses Name GetGeolocationByIP obj s) =
     (if externalIP \<noteq> '''' then [ExternalLookup (Name obj) externalIP] else []) @
     (if internalIP \<noteq> '''' \<and>
         \<not> (externalIP \<noteq> '''' \<and> fst (GetGeolocationByIP (Name obj) externalIP s))
      then [InternalLookup (Name obj) internalIP] else []) \<and>
   ((\<exists>c \<in> set (snd (SetNodeGeolocation GetNodeIPAddresses Name GetGeolocationByIP obj s)).
        is_internal c) \<longleftrightarrow>
    (internalIP \<noteq> '''' \<and>
     \<not> (externalIP \<noteq> '''' \<and> fst (GetGeolocationByIP (Name obj) externalIP s))))"
  using assms
  by (auto simp: SetNodeGeolocation_def Let_def is_internal_def split: prod.splits)

theorem SetNodeGeolocation_prefers_external_witness:
  "snd (SetNodeGeolocation (\<lambda>n::unit. (''10.0.0.7'', ''132.227.123.45'')) (\<lambda>n. ''node-1'')
         (\<lambda>name ip (s::nat). (False, Suc s)) () 0) =
     [ExternalLookup ''node-1'' ''132.227.123.45'', InternalLookup ''node-1'' ''10.0.0.7''] \<and>
   snd (SetNodeGeolocation (\<lambda>n::unit. (''10.0.0.7'', ''132.227.123.45'')) (\<lambda>n. ''node-1'')
         (\<lambda>name ip (s::nat). (True, Suc s)) () 0) =
     [ExternalLookup ''node-1'' ''132.227.123.45'']"
  using SetNodeGeolocation_prefers_external
    [of "\<lambda>n::unit. (''10.0.0.7'', ''132.227.123.45'')" "()" "''10.0.0.7''" "''132.227.123.45''"
        "\<lambda>n. ''node-1''" "\<lambda>name ip (s::nat). (False, Suc s)" 0]
    SetNodeGeolocation_prefers_external
    [of "\<lambda>n::unit. (''10.0.0.7'', ''132.227.123.45'')" "()" "''10.0.0.7''" "''132.227.123.45''"
        "\<lambda>n. ''node-1''" "\<lambda>name ip (s::nat). (True, Suc s)" 0]
  by simp


section \<open>Properties of the selector schema\<close>

text \<open>
  C7. The schema rejects a selector whose \<open>count\<close> is negative, so the \<open>count\<close> of a valid
  clause is a non-negative integer; and a clause with \<open>count = 0\<close> selects all the nodes
  that match (for \<open>NotIn\<close>: all that do not), with no limit.
\<close>

theorem selector_count_zero_unlimited:
  "(\<forall>c. selector_count sel = Some c \<longrightarrow> (valid_selector sel \<longrightarrow> 0 \<le> c) \<and> (c < 0 \<longrightarrow> \<not> valid_selector sel)) \<and>
   clause_candidates matches ''In'' 0 nodes = filter matches nodes \<and>
   clause_candidates matches ''NotIn'' 0 nodes = filter (\<lambda>n. \<not> matches n) nodes"
  by (auto simp: valid_selector_def valid_count_def clause_candidates_def cap_def)

theorem selector_count_zero_unlimited_witness:
  "\<not> valid_selector \<lparr>selector_value = Some ''Paris'', selector_operator = Some ''In'', selector_count = Some (- 1)\<rparr> \<and>
   valid_selector \<lparr>selector_value = Some ''Paris'', selector_operator = Some ''In'', selector_count = Some 0\<rparr> \<and>
   clause_candidates (\<lambda>n::nat. n < 3) ''In'' 0 [0, 1, 2, 3, 4] = [0, 1, 2]"
  using selector_count_zero_unlimited
    [of "\<lparr>selector_value = Some ''Paris'', selector_operator = Some ''In'', selector_count = Some (- 1)\<rparr>"
        "\<lambda>n::nat. n < 3" "[0, 1, 2, 3, 4]"]
  by (simp add: valid_selector_def valid_operator_def valid_count_def)


section \<open>Properties of the reconciliation engine\<close>

lemmas engine_defs =
  run_def turn_def worker_turn_def notify_def AddFunc_def UpdateFunc_def DeleteFunc_def
  processNextItem_def Get_def Done_def Add_def AddRateLimited_def due_def NumRequeues_def
  Forget_def ShutDown_def emit_def on_error_def dispatch_def store_GetByKey_def
  newController_def authority_changed_def create_def update_def delete_def Let_def

lemmas scenario_defs =
  name_key_def two_objects_def never_panics_def panics_on_a_def failing_lookup_def

lemmas project_defs =
  project_key_def project_v1_def project_v2_def project_v3_def project_changed_def
  DeepEqual_def

subsection \<open>The effects of one call of \<open>processNextItem\<close>\<close>

lemma Get_Cons:
  "queue s = i # rest \<Longrightarrow>
   Get s = GetItem i (s\<lparr>queue := rest, processing := insert i (processing s),
                         dirty := dirty s - {i}\<rparr>)"
  by (simp add: Get_def)

lemma trace_on_error:
  "trace (on_error err e s) =
     trace s @ (case err of None \<Rightarrow> []
                | Some er \<Rightarrow> if failures s (Key (key e)) < 5 then [] else [HandleError er])"
  by (simp add: on_error_def AddRateLimited_def Forget_def emit_def NumRequeues_def Let_def
      split: option.splits)

lemma trace_Done [simp]: "trace (Done i s) = trace s"
  by (simp add: Done_def)

lemma trace_Forget [simp]: "trace (Forget i s) = trace s"
  by (simp add: Forget_def)

lemma trace_emit [simp]: "trace (emit x s) = trace s @ [x]"
  by (simp add: emit_def)

lemma processNextItem_Event_trace:
  assumes "queue s = Event e # rest" and "GetByKey (key e) = (item, exists, err)"
  shows "trace (snd (processNextItem GetByKey panics s)) =
     trace s @
     (case err of None \<Rightarrow> []
      | Some er \<Rightarrow> if failures s (Key (key e)) < 5 then [] else [HandleError er]) @
     (case dispatch item exists e of None \<Rightarrow> [] | Some c \<Rightarrow> [Invoke c])"
  using assms
  by (simp add: processNextItem_def Get_Cons trace_on_error Let_def split: option.splits)

lemma processNextItem_other_trace:
  assumes "\<forall>e rest. queue s \<noteq> Event e # rest"
  shows "trace (snd (processNextItem GetByKey panics s)) = trace s"
  using assms
  by (auto simp: processNextItem_def Get_def split: list.splits item.splits)

lemma call_object_dispatch: "dispatch item exists e = Some c \<Longrightarrow> call_object c = item"
  by (auto simp: dispatch_def call_object_def split: if_splits)


lemma queue_on_error [simp]: "queue (on_error err e s) = queue s"
  by (simp add: on_error_def AddRateLimited_def Forget_def emit_def Let_def split: option.splits)

lemma dirty_on_error [simp]: "dirty (on_error err e s) = dirty s"
  by (simp add: on_error_def AddRateLimited_def Forget_def emit_def Let_def split: option.splits)


text \<open>
  C6. Whatever handler method a call of \<open>processNextItem\<close> invokes, the object it passes
  is the item that \<open>GetByKey\<close> returns, at the time of that call, for the key of the event
  taken from the queue. (An event carries a key, a function name and the change summary,
  and no object.)
\<close>

theorem handler_object_from_cache:
  "\<forall>c. Invoke c \<in> set (added s (snd (processNextItem GetByKey panics s))) \<longrightarrow>
     (\<exists>e rest. queue s = Event e # rest \<and> call_object c = fst (GetByKey (key e)))"
proof (cases "\<exists>e rest. queue s = Event e # rest")
  case True
  then obtain e rest where q: "queue s = Event e # rest" by blast
  obtain item exists err where g: "GetByKey (key e) = (item, exists, err)"
    by (cases "GetByKey (key e)") auto
  have tr: "trace (snd (processNextItem GetByKey panics s)) =
     trace s @
     (case err of None \<Rightarrow> []
      | Some er \<Rightarrow> if failures s (Key (key e)) < 5 then [] else [HandleError er]) @
     (case dispatch item exists e of None \<Rightarrow> [] | Some c \<Rightarrow> [Invoke c])"
    using q g by (rule processNextItem_Event_trace)
  show ?thesis
    using q g call_object_dispatch [of item exists e]
    by (auto simp: added_def tr split: option.splits if_splits)
next
  case False
  then show ?thesis
    by (simp add: added_def processNextItem_other_trace)
qed

theorem handler_object_from_cache_witness:
  "Invoke (ObjectUpdated (Some project_v3) \<lparr>users = True, enabled = False\<rparr>)
     \<in> set (added update_queued
           (snd (processNextItem (store_GetByKey [''default/p'' \<mapsto> project_v3]) never_panics
                  update_queued))) \<and>
   (\<exists>e rest. queue update_queued = Event e # rest \<and>
      call_object (ObjectUpdated (Some project_v3) \<lparr>users = True, enabled = False\<rparr>) =
        fst (store_GetByKey [''default/p'' \<mapsto> project_v3] (key e)))"
proof -
  have m: "Invoke (ObjectUpdated (Some project_v3) \<lparr>users = True, enabled = False\<rparr>)
     \<in> set (added update_queued
           (snd (processNextItem (store_GetByKey [''default/p'' \<mapsto> project_v3]) never_panics
                  update_queued)))"
    by (simp add: added_def update_queued_def project_defs scenario_defs engine_defs)
  show ?thesis
    using m handler_object_from_cache [where s = update_queued and panics = never_panics
        and GetByKey = "store_GetByKey [''default/p'' \<mapsto> project_v3]", rule_format, OF m]
    by blast
qed

text \<open>
  C10. When the key of the event taken from the queue is not in the store, a delete event
  makes the engine call \<open>ObjectDeleted\<close> with the nil object, and that is the only handler
  call there is: a create or an update event is dropped without a handler call, without
  an error report and without being queued again.
\<close>

theorem vanished_object_dispatch:
  assumes "queue s = Event e # rest" and "store (key e) = None"
  shows "added s (snd (processNextItem (store_GetByKey store) panics s)) =
           (if func e = delete then [Invoke (ObjectDeleted None)] else []) \<and>
         ((func e = create \<or> func e = update) \<longrightarrow>
            processNextItem (store_GetByKey store) panics s =
              (Returned True,
               s\<lparr>queue := rest, dirty := dirty s - {Event e},
                  processing := processing s - {Event e},
                  failures := (failures s)(Key (key e) := 0)\<rparr>))"
proof -
  have g: "store_GetByKey store (key e) = (None, False, None)"
    using assms(2) by (simp add: store_GetByKey_def)
  have d: "dispatch None False e =
      (if func e = delete then Some (ObjectDeleted None) else None)"
    by (simp add: dispatch_def)
  have ne: "create \<noteq> delete" "update \<noteq> delete"
    by (simp_all add: create_def update_def delete_def)
  show ?thesis
    using assms(1) g ne
    by (auto simp: added_def processNextItem_def Get_Cons d on_error_def Done_def Forget_def
        emit_def Let_def)
qed

theorem vanished_object_dispatch_witness:
  "added (Add (Event \<lparr>key = ''gone'', func = delete, updated = ()\<rparr>) (newController ()))
     (snd (processNextItem (store_GetByKey two_objects) never_panics
            (Add (Event \<lparr>key = ''gone'', func = delete, updated = ()\<rparr>) (newController ()))))
     = [Invoke (ObjectDeleted None)] \<and>
   added (Add (Event \<lparr>key = ''gone'', func = update, updated = ()\<rparr>) (newController ()))
     (snd (processNextItem (store_GetByKey two_objects) never_panics
            (Add (Event \<lparr>key = ''gone'', func = update, updated = ()\<rparr>) (newController ()))))
     = []"
proof -
  have q: "queue (Add (Event \<lparr>key = ''gone'', func = f, updated = ()\<rparr>) (newController ())) =
      Event \<lparr>key = ''gone'', func = f, updated = ()\<rparr> # []" for f
    by (simp add: Add_def newController_def)
  have g: "two_objects (key \<lparr>key = ''gone'', func = f, updated = ()\<rparr>) = None" for f
    by (simp add: two_objects_def)
  have ne: "update \<noteq> delete"
    by (simp add: update_def delete_def)
  show ?thesis
    using ne
      vanished_object_dispatch [where panics = never_panics and store = two_objects
        and e = "\<lparr>key = ''gone'', func = delete, updated = ()\<rparr>" and rest = "[]"
        and s = "Add (Event \<lparr>key = ''gone'', func = delete, updated = ()\<rparr>) (newController ())",
        OF q [of delete] g [of delete], THEN conjunct1]
      vanished_object_dispatch [where panics = never_panics and store = two_objects
        and e = "\<lparr>key = ''gone'', func = update, updated = ()\<rparr>" and rest = "[]"
        and s = "Add (Event \<lparr>key = ''gone'', func = update, updated = ()\<rparr>) (newController ())",
        OF q [of update] g [of update], THEN conjunct1]
    by simp
qed

subsection \<open>The change summary of an update\<close>

lemma project_changed_eq:
  "project_changed oldObj newObj u =
     \<lparr>users = (Spec_Users oldObj \<noteq> Spec_Users newObj),
      enabled = (Status_Enabled oldObj \<noteq> Status_Enabled newObj)\<rparr>"
  by (cases u) (simp add: project_changed_def DeepEqual_def Let_def)

text \<open>
  C5. For an update, \<open>UpdateFunc\<close> of the project controller hands to the queue an event
  whose summary has \<open>enabled\<close> true if and only if \<open>Status.Enabled\<close> of the old and the new
  object differ, and \<open>users\<close> true if and only if their \<open>Spec.Users\<close> differ (as
  \<open>reflect.DeepEqual\<close> compares them); \<open>processNextItem\<close> passes the summary of the event
  it takes from the queue to \<open>ObjectUpdated\<close> as it is; and the team handler, for an
  enabled team of an enabled authority, writes nothing when neither flag is set.
\<close>

theorem update_summary_passed:
  fixes s :: "(('m, 'z) Project_scheme, fields) state"
  assumes "keyFunc newObj = (k, None)"
  shows
    "UpdateFunc project_changed keyFunc oldObj newObj s =
       Add (Event \<lparr>key = k, func = update,
                   updated = \<lparr>users = (Spec_Users oldObj \<noteq> Spec_Users newObj),
                              enabled = (Status_Enabled oldObj \<noteq> Status_Enabled newObj)\<rparr>\<rparr>)
           (s\<lparr>event := \<lparr>key = k, func = update,
                   updated = \<lparr>users = (Spec_Users oldObj \<noteq> Spec_Users newObj),
                              enabled = (Status_Enabled oldObj \<noteq> Status_Enabled newObj)\<rparr>\<rparr>\<rparr>) \<and>
     (\<forall>(s' :: (('m, 'z) Project_scheme, fields) state) rest item summary.
        queue s' = Event \<lparr>key = k, func = update, updated = summary\<rparr> # rest \<and>
        GetByKey k = (item, True, None) \<longrightarrow>
        added s' (snd (processNextItem GetByKey panics s')) =
          [Invoke (ObjectUpdated item summary)]) \<and>
     (\<forall>ns. team_ObjectUpdated True True ns \<lparr>users = False, enabled = False\<rparr> = [])"
proof (intro conjI allI impI)
  show "UpdateFunc project_changed keyFunc oldObj newObj s =
       Add (Event \<lparr>key = k, func = update,
                   updated = \<lparr>users = (Spec_Users oldObj \<noteq> Spec_Users newObj),
                              enabled = (Status_Enabled oldObj \<noteq> Status_Enabled newObj)\<rparr>\<rparr>)
           (s\<lparr>event := \<lparr>key = k, func = update,
                   updated = \<lparr>users = (Spec_Users oldObj \<noteq> Spec_Users newObj),
                              enabled = (Status_Enabled oldObj \<noteq> Status_Enabled newObj)\<rparr>\<rparr>\<rparr>)"
    using assms by (cases "event s") (simp add: UpdateFunc_def project_changed_eq Let_def)
next
  fix s' :: "(('m, 'z) Project_scheme, fields) state" and rest item summary
  assume a: "queue s' = Event \<lparr>key = k, func = update, updated = summary\<rparr> # rest \<and>
        GetByKey k = (item, True, None)"
  have ne: "update \<noteq> create"
    by (simp add: create_def update_def)
  have d: "dispatch item True \<lparr>key = k, func = update, updated = summary\<rparr> =
      Some (ObjectUpdated item summary)"
    using ne by (simp add: dispatch_def)
  have "trace (snd (processNextItem GetByKey panics s')) = trace s' @ [Invoke (ObjectUpdated item summary)]"
    using processNextItem_Event_trace
      [where GetByKey = GetByKey and s = s' and panics = panics
         and e = "\<lparr>key = k, func = update, updated = summary\<rparr>" and rest = rest
         and item = item and exists = True and err = None] a d
    by simp
  then show "added s' (snd (processNextItem GetByKey panics s')) =
          [Invoke (ObjectUpdated item summary)]"
    by (simp add: added_def)
next
  fix ns
  show "team_ObjectUpdated True True ns \<lparr>users = False, enabled = False\<rparr> = []"
    by (simp add: team_ObjectUpdated_def)
qed

theorem update_summary_passed_witness:
  "queue update_queued =
     [Event \<lparr>key = ''default/p'', func = update,
             updated = \<lparr>users = True, enabled = False\<rparr>\<rparr>] \<and>
   added update_queued
     (snd (processNextItem (store_GetByKey [''default/p'' \<mapsto> project_v2]) never_panics
            update_queued)) =
     [Invoke (ObjectUpdated (Some project_v2) \<lparr>users = True, enabled = False\<rparr>)]"
proof -
  have k: "project_key project_v2 = (''default/p'', None)"
    by (simp add: project_key_def)
  note t = update_summary_passed [where keyFunc = project_key and newObj = project_v2
      and oldObj = project_v1 and k = "''default/p''"
      and s = "newController \<lparr>users = False, enabled = False\<rparr>"
      and GetByKey = "store_GetByKey [''default/p'' \<mapsto> project_v2]"
      and panics = never_panics, OF k]
  have u: "update_queued =
      Add (Event \<lparr>key = ''default/p'', func = update,
                  updated = \<lparr>users = True, enabled = False\<rparr>\<rparr>)
        ((newController \<lparr>users = False, enabled = False\<rparr>)
           \<lparr>event := \<lparr>key = ''default/p'', func = update,
                       updated = \<lparr>users = True, enabled = False\<rparr>\<rparr>\<rparr>)"
    using t [THEN conjunct1]
    by (simp add: update_queued_def project_v1_def project_v2_def)
  have q: "queue update_queued =
     [Event \<lparr>key = ''default/p'', func = update,
             updated = \<lparr>users = True, enabled = False\<rparr>\<rparr>]"
    by (simp add: u Add_def newController_def)
  have g: "store_GetByKey [''default/p'' \<mapsto> project_v2] ''default/p'' =
      (Some project_v2, True, None)"
    by (simp add: store_GetByKey_def)
  show ?thesis
    using q g t [THEN conjunct2, THEN conjunct1, rule_format,
        of update_queued "\<lparr>users = True, enabled = False\<rparr>" "[]" "Some project_v2"]
    by simp
qed

subsection \<open>The order of effects in \<open>run\<close>\<close>

lemma trace_Add [simp]: "trace (Add i s) = trace s"
  by (simp add: Add_def)

lemma crashed_Add [simp]: "crashed (Add i s) = crashed s"
  by (simp add: Add_def)

lemma trace_notify [simp]: "trace (notify changed keyFunc delKeyFunc n s) = trace s"
  by (simp add: notify_def AddFunc_def UpdateFunc_def DeleteFunc_def Let_def
      split: notification.splits prod.splits)

lemma trace_fold_notify [simp]:
  "trace (fold (notify changed keyFunc delKeyFunc) ns s) = trace s"
  by (induction ns arbitrary: s) simp_all

lemma trace_due [simp]: "trace (due i s) = trace s"
  by (simp add: due_def)

lemma processNextItem_trace_grows:
  "\<exists>more. trace (snd (processNextItem GetByKey panics s)) = trace s @ more"
proof (cases "\<exists>e rest. queue s = Event e # rest")
  case True
  then obtain e rest where q: "queue s = Event e # rest" by blast
  obtain item exists err where g: "GetByKey (key e) = (item, exists, err)"
    by (cases "GetByKey (key e)") auto
  from q g show ?thesis
    by (simp add: processNextItem_Event_trace)
next
  case False
  then show ?thesis
    by (simp add: processNextItem_other_trace)
qed

lemma turn_trace_grows:
  "\<exists>more. trace (turn changed keyFunc delKeyFunc panics t s) = trace s @ more"
proof (cases t)
  case (Worker GetByKey)
  obtain more where "trace (snd (processNextItem GetByKey panics s)) = trace s @ more"
    using processNextItem_trace_grows by blast
  then show ?thesis
    using Worker by (simp add: turn_def worker_turn_def Let_def emit_def)
qed (simp_all add: turn_def)

lemma turns_trace_grows:
  "\<exists>more. trace (turns changed keyFunc delKeyFunc panics ts s) = trace s @ more"
proof (induction ts arbitrary: s)
  case Nil
  show ?case by simp
next
  case (Cons t ts)
  show ?case
  proof (cases "crashed s")
    case True
    then show ?thesis by simp
  next
    case False
    obtain m1 where m1: "trace (turn changed keyFunc delKeyFunc panics t s) = trace s @ m1"
      using turn_trace_grows by blast
    obtain m2 where "trace (turns changed keyFunc delKeyFunc panics ts
        (turn changed keyFunc delKeyFunc panics t s)) =
        trace (turn changed keyFunc delKeyFunc panics t s) @ m2"
      using Cons.IH by blast
    with m1 False show ?thesis by simp
  qed
qed

lemma trace_newController [simp]: "trace (newController zero) = []"
  by (simp add: newController_def)

text \<open>
  C3. In every execution of \<open>run\<close> from a new controller: if the cache does not
  synchronise, \<open>run\<close> reports the error, shuts the queue down and returns, and nothing is
  dispatched; if it does, \<open>WaitForCacheSync\<close> has returned true before the worker is
  started; and every handler call comes after both.
\<close>

theorem cache_sync_barrier:
  "let tr = trace (run changed keyFunc delKeyFunc panics synced initial before_stop after_stop
                     (newController zero))
   in (\<not> synced \<longrightarrow>
         tr = [HandlerInit, InformerRun, HandleError ''Error syncing cache'', QueueShutDown]) \<and>
      (synced \<longrightarrow> (\<exists>more. tr = [HandlerInit, InformerRun, CacheSynced, WorkerStarted] @ more)) \<and>
      (\<forall>i < length tr. is_Invoke (tr ! i) \<longrightarrow>
         synced \<and> 3 < i \<and> tr ! 2 = CacheSynced \<and> tr ! 3 = WorkerStarted)"
proof -
  let ?tr = "trace (run changed keyFunc delKeyFunc panics synced initial before_stop after_stop
                     (newController zero))"
  have a: "\<not> synced \<Longrightarrow>
      ?tr = [HandlerInit, InformerRun, HandleError ''Error syncing cache'', QueueShutDown]"
    by (simp add: run_def ShutDown_def Let_def)
  have b: "\<exists>more. ?tr = [HandlerInit, InformerRun, CacheSynced, WorkerStarted] @ more"
    if synced
  proof -
    let ?s5 = "emit WorkerStarted (emit CacheSynced
        (fold (notify changed keyFunc delKeyFunc) initial
          (emit InformerRun (emit HandlerInit (newController zero)))))"
    let ?s6 = "turns changed keyFunc delKeyFunc panics before_stop ?s5"
    have t5: "trace ?s5 = [HandlerInit, InformerRun, CacheSynced, WorkerStarted]"
      by simp
    obtain m1 where m1: "trace ?s6 = trace ?s5 @ m1"
      using turns_trace_grows by blast
    obtain m2 where m2: "trace (turns changed keyFunc delKeyFunc panics after_stop (ShutDown ?s6))
        = trace (ShutDown ?s6) @ m2"
      using turns_trace_grows by blast
    show ?thesis
    proof (cases "crashed ?s6")
      case True
      with that m1 t5 show ?thesis by (simp add: run_def Let_def)
    next
      case False
      with that m1 m2 t5 show ?thesis by (simp add: run_def Let_def ShutDown_def)
    qed
  qed
  have c: "synced \<and> 3 < i \<and> ?tr ! 2 = CacheSynced \<and> ?tr ! 3 = WorkerStarted"
    if i: "i < length ?tr" and inv: "is_Invoke (?tr ! i)" for i
  proof (cases synced)
    case False
    with a i inv show ?thesis
      by (auto simp: is_Invoke_def less_Suc_eq nth_Cons' split: if_splits)
  next
    case True
    then obtain more where m: "?tr = [HandlerInit, InformerRun, CacheSynced, WorkerStarted] @ more"
      using b by blast
    have "3 < i"
    proof (rule ccontr)
      assume "\<not> 3 < i"
      then have "i = 0 \<or> i = 1 \<or> i = 2 \<or> i = 3" by arith
      with inv m show False by (auto simp: is_Invoke_def)
    qed
    with True m show ?thesis by simp
  qed
  show ?thesis
    unfolding Let_def using a b c by blast
qed

theorem cache_sync_barrier_witness:
  "trace unsynced_run =
     [HandlerInit, InformerRun, HandleError ''Error syncing cache'', QueueShutDown] \<and>
   (4 < length (trace synced_run) \<and> is_Invoke (trace synced_run ! 4)) \<and>
   (3 < (4::nat) \<and> trace synced_run ! 2 = CacheSynced \<and> trace synced_run ! 3 = WorkerStarted)"
proof -
  have t: "trace synced_run =
      [HandlerInit, InformerRun, CacheSynced, WorkerStarted,
       Invoke (ObjectCreated (Some ''a'')), QueueShutDown]"
    by (simp add: synced_run_def scenario_defs engine_defs)
  have i: "4 < length (trace synced_run) \<and> is_Invoke (trace synced_run ! 4)"
    by (simp add: t is_Invoke_def)
  show ?thesis
    using i
      cache_sync_barrier [of authority_changed name_key name_key never_panics True
        "[OnAdd ''a'']" "[Worker (store_GetByKey two_objects)]" "[]" "()"]
      cache_sync_barrier [of authority_changed name_key name_key never_panics False
        "[OnAdd ''a'']" "[Worker (store_GetByKey two_objects)]" "[]" "()"]
    unfolding Let_def synced_run_def [symmetric] unsynced_run_def [symmetric]
    by blast
qed

subsection \<open>Panics\<close>







subsection \<open>The retry budget\<close>

lemma budget_inv_Add: "budget_inv (Add i s) = budget_inv s"
  by (simp add: budget_inv_def Add_def)

lemma budget_inv_notify:
  "budget_inv (notify changed keyFunc delKeyFunc n s) = budget_inv s"
  by (simp add: notify_def AddFunc_def UpdateFunc_def DeleteFunc_def Let_def budget_inv_Add
      split: notification.splits prod.splits)
    (simp_all add: budget_inv_def)

lemma budget_inv_due: "budget_inv (due i s) = budget_inv s"
  by (simp add: due_def budget_inv_Add) (simp add: budget_inv_def)

lemma budget_inv_worker_turn:
  assumes "budget_inv s" and "\<not> crashed s"
  shows "budget_inv (worker_turn GetByKey panics s)"
proof (cases "queue s")
  case Nil
  with assms show ?thesis
    by (simp add: worker_turn_def processNextItem_def Get_def Let_def)
next
  case (Cons i rest)
  show ?thesis
  proof (cases i)
    case (Key k)
    with Cons assms show ?thesis
      by (simp add: worker_turn_def processNextItem_def Get_def Let_def Done_def emit_def
          budget_inv_def)
  next
    case (Event e)
    obtain item exists err where g: "GetByKey (key e) = (item, exists, err)"
      by (cases "GetByKey (key e)") auto
    from assms have z: "\<forall>i. failures s i = 0" and h: "\<forall>er. HandleError er \<notin> set (trace s)"
      by (simp_all add: budget_inv_def)
    show ?thesis
      using Cons Event g z h
      by (auto simp: worker_turn_def processNextItem_def Get_def Let_def Done_def emit_def
          Forget_def on_error_def AddRateLimited_def NumRequeues_def budget_inv_def
          split: option.splits)
  qed
qed

lemma budget_inv_turns:
  "budget_inv s \<Longrightarrow> budget_inv (turns changed keyFunc delKeyFunc panics ts s)"
proof (induction ts arbitrary: s)
  case Nil
  then show ?case by simp
next
  case (Cons t ts)
  show ?case
  proof (cases "crashed s")
    case True
    with Cons.prems show ?thesis by simp
  next
    case False
    have "budget_inv (turn changed keyFunc delKeyFunc panics t s)"
      using Cons.prems False
      by (cases t) (simp_all add: turn_def budget_inv_notify budget_inv_due budget_inv_worker_turn)
    then show ?thesis
      using False Cons.IH by simp
  qed
qed

lemma no_more_retries_unreachable:
  assumes synced
  shows "HandleError er \<notin> set (trace (run changed keyFunc delKeyFunc panics synced initial
            before_stop after_stop (newController zero)))"
proof -
  let ?s3 = "fold (notify changed keyFunc delKeyFunc) initial
          (emit InformerRun (emit HandlerInit (newController zero)))"
  have "budget_inv (emit InformerRun (emit HandlerInit (newController zero)))"
    by (simp add: budget_inv_def emit_def newController_def)
  then have "budget_inv ?s3"
    by (induction initial rule: rev_induct) (simp_all add: budget_inv_notify)
  then have "budget_inv (emit WorkerStarted (emit CacheSynced ?s3))"
    by (simp add: budget_inv_def emit_def)
  then have 6: "budget_inv (turns changed keyFunc delKeyFunc panics before_stop
      (emit WorkerStarted (emit CacheSynced ?s3)))" (is "budget_inv ?s6")
    by (rule budget_inv_turns)
  then have "budget_inv (ShutDown ?s6)"
    by (simp add: budget_inv_def ShutDown_def emit_def)
  then have "budget_inv (turns changed keyFunc delKeyFunc panics after_stop (ShutDown ?s6))"
    by (rule budget_inv_turns)
  with 6 assms show ?thesis
    by (simp add: run_def Let_def budget_inv_def)
qed


end
